theory Spec2Isabelle
  imports Main "HOL-Library.Word"
begin

section \<open>Strings and the two display languages\<close>

text \<open>
  A JavaScript string is a sequence of UTF-16 code units. A regular expression without
  the \<^verbatim>\<open>u\<close> flag, such as the class of the code units U+0600 to U+06FF, matches code units.
  The type \<^verbatim>\<open>'en' | 'ur'\<close> is a datatype.
\<close>

type_synonym jsstring = "16 word list"

datatype lang = En | Ur

text \<open>An ASCII literal of the source as a JavaScript string.\<close>

definition ascii :: "string \<Rightarrow> jsstring" where
  "ascii s = map (\<lambda>c. of_nat (of_char c)) s"

text \<open>
  The code points of a string, as the string iterator and \<^verbatim>\<open>codePointAt\<close> read them:
  a high surrogate followed by a low surrogate is one supplementary code point, every other
  code unit (a lone surrogate too) is the code point of its own value.
\<close>

definition isHighSurrogate :: "16 word \<Rightarrow> bool" where
  "isHighSurrogate u = (0xD800 \<le> u \<and> u \<le> 0xDBFF)"

definition isLowSurrogate :: "16 word \<Rightarrow> bool" where
  "isLowSurrogate u = (0xDC00 \<le> u \<and> u \<le> 0xDFFF)"

fun codePoints :: "jsstring \<Rightarrow> nat list" where
  "codePoints [] = []"
| "codePoints [u] = [unat u]"
| "codePoints (h # l # rest) =
     (if isHighSurrogate h \<and> isLowSurrogate l
      then (0x10000 + (unat h - 0xD800) * 0x400 + (unat l - 0xDC00)) # codePoints rest
      else unat h # codePoints (l # rest))"

section \<open>Language utilities (utils/languageDetection)\<close>

text \<open>
  The hook imports \<^verbatim>\<open>containsUrdu\<close>, \<^verbatim>\<open>detectLanguage\<close>, \<^verbatim>\<open>getLanguageCode\<close> and
  \<^verbatim>\<open>getVoiceErrorMessage\<close> from \<^verbatim>\<open>utils/languageDetection\<close>. Their code is the one
  of \<^verbatim>\<open>specs/002-voice-commands/quickstart.md\<close> (Phase 2); the chat page has the same
  \<^verbatim>\<open>containsUrdu\<close> as a local helper:
  \<^verbatim>\<open>
  const containsUrdu = (text: string) => {
    const urduRegex = /[U+0600-U+06FF]/;   (the class is written with two unicode escapes)
    return urduRegex.test(text);
  };
  export const detectLanguage = (text: string): 'en' | 'ur' => {
    return containsUrdu(text) ? 'ur' : 'en';
  };
  export const getLanguageCode = (lang: 'en' | 'ur'): string => {
    return lang === 'en' ? 'en-US' : 'ur-PK';
  };
  \<close>
\<close>

definition containsUrdu :: "jsstring \<Rightarrow> bool" where
  "containsUrdu text = list_ex (\<lambda>u. 0x0600 \<le> u \<and> u \<le> 0x06FF) text"

definition detectLanguage :: "jsstring \<Rightarrow> lang" where
  "detectLanguage text = (if containsUrdu text then Ur else En)"

definition getLanguageCode :: "lang \<Rightarrow> string" where
  "getLanguageCode l = (if l = En then ''en-US'' else ''ur-PK'')"

subsection \<open>Error messages\<close>

text \<open>
  \<^verbatim>\<open>
  // Error messages object (see plan.md for complete list)
  export const getVoiceErrorMessage = (code: string, lang: 'en' | 'ur'): string => {
    const messages = { /* ... error messages ... */ };
    return messages[code]?.[lang] || messages['network'][lang];
  };
  \<close>
  The object is \<^verbatim>\<open>ERROR_MESSAGES\<close> of \<^verbatim>\<open>plan.md\<close> (Error Code Mapping): four
  codes, each with an English and an Urdu message. The Urdu messages are written by their
  UTF-16 code units. Error codes and language tags are ASCII identifiers: they are values
  of \<open>string\<close>.
\<close>

record message_entry =
  en :: jsstring
  ur :: jsstring

definition ERROR_MESSAGES :: "(string \<times> message_entry) list" where
  "ERROR_MESSAGES =
    [(''not-allowed'',
       \<lparr>en = ascii ''Microphone access denied. Please allow microphone permissions.'',
        ur = [0x0645, 0x0627, 0x0626, 0x06CC, 0x06A9, 0x0631, 0x0648, 0x0641, 0x0648, 0x0646,
              0x0020, 0x06A9, 0x06CC, 0x0020, 0x0627, 0x062C, 0x0627, 0x0632, 0x062A, 0x0020,
              0x0646, 0x06C1, 0x06CC, 0x06BA, 0x0020, 0x06C1, 0x06D2, 0x06D4, 0x0020, 0x0628,
              0x0631, 0x0627, 0x06C1, 0x0020, 0x06A9, 0x0631, 0x0645, 0x0020, 0x0627, 0x062C,
              0x0627, 0x0632, 0x062A, 0x0020, 0x062F, 0x06CC, 0x06BA, 0x06D4]\<rparr>),
     (''no-speech'',
       \<lparr>en = ascii ''No speech detected. Please try again.'',
        ur = [0x0622, 0x0648, 0x0627, 0x0632, 0x0020, 0x0646, 0x06C1, 0x06CC, 0x06BA, 0x0020,
              0x0633, 0x0646, 0x06CC, 0x0020, 0x06AF, 0x0626, 0x06CC, 0x06D4, 0x0020, 0x062F,
              0x0648, 0x0628, 0x0627, 0x0631, 0x06C1, 0x0020, 0x06A9, 0x0648, 0x0634, 0x0634,
              0x0020, 0x06A9, 0x0631, 0x06CC, 0x06BA, 0x06D4]\<rparr>),
     (''audio-capture'',
       \<lparr>en = ascii ''Microphone not found. Please check your device.'',
        ur = [0x0645, 0x0627, 0x0626, 0x06CC, 0x06A9, 0x0631, 0x0648, 0x0641, 0x0648, 0x0646,
              0x0020, 0x0646, 0x06C1, 0x06CC, 0x06BA, 0x0020, 0x0645, 0x0644, 0x0627, 0x06D4,
              0x0020, 0x0627, 0x067E, 0x0646, 0x0627, 0x0020, 0x0622, 0x0644, 0x06C1, 0x0020,
              0x0686, 0x06CC, 0x06A9, 0x0020, 0x06A9, 0x0631, 0x06CC, 0x06BA, 0x06D4]\<rparr>),
     (''network'',
       \<lparr>en = ascii ''Network error. Please check your connection.'',
        ur = [0x0646, 0x06CC, 0x0679, 0x0020, 0x0648, 0x0631, 0x06A9, 0x0020, 0x062E, 0x0631,
              0x0627, 0x0628, 0x06CC, 0x06D4, 0x0020, 0x0627, 0x067E, 0x0646, 0x0627, 0x0020,
              0x06A9, 0x0646, 0x06A9, 0x0634, 0x0646, 0x0020, 0x0686, 0x06CC, 0x06A9, 0x0020,
              0x06A9, 0x0631, 0x06CC, 0x06BA, 0x06D4]\<rparr>)]"

text \<open>\<^verbatim>\<open>entry[lang]\<close>: both keys are present in every entry of the object.\<close>

definition entryAt :: "message_entry \<Rightarrow> lang \<Rightarrow> jsstring" where
  "entryAt e l = (case l of En \<Rightarrow> en e | Ur \<Rightarrow> ur e)"

datatype js_error = TypeError | InvalidStateError

text \<open>
  \<^verbatim>\<open>messages[code]?.[lang]\<close> is \<^verbatim>\<open>undefined\<close> (here \<open>None\<close>) for a code that is not a
  key of the object; a property inherited from \<^verbatim>\<open>Object.prototype\<close> has no \<^verbatim>\<open>en\<close> or
  \<^verbatim>\<open>ur\<close> of its own and gives \<^verbatim>\<open>undefined\<close> as well. \<^verbatim>\<open>||\<close> takes its right operand
  when the left one is \<^verbatim>\<open>undefined\<close> or the empty string. Reading \<^verbatim>\<open>[lang]\<close> of a
  missing \<^verbatim>\<open>messages['network']\<close> would raise a TypeError.
\<close>

definition getVoiceErrorMessage :: "string \<Rightarrow> lang \<Rightarrow> js_error + jsstring" where
  "getVoiceErrorMessage code l =
     (case (case map_of ERROR_MESSAGES code of
              None \<Rightarrow> None
            | Some e \<Rightarrow> Some (entryAt e l)) of
        Some m \<Rightarrow>
          (if m \<noteq> [] then Inr m
           else (case map_of ERROR_MESSAGES ''network'' of
                   None \<Rightarrow> Inl TypeError
                 | Some e \<Rightarrow> Inr (entryAt e l)))
      | None \<Rightarrow>
          (case map_of ERROR_MESSAGES ''network'' of
             None \<Rightarrow> Inl TypeError
           | Some e \<Rightarrow> Inr (entryAt e l)))"


section \<open>The Web Speech API objects the hook uses\<close>

text \<open>
  The \<^verbatim>\<open>SpeechRecognition\<close> instance, with the four properties the hook assigns. The
  fields \<open>startCalls\<close> and \<open>stopCalls\<close> are not part of the source: they count the calls of
  \<^verbatim>\<open>start()\<close> that returned and the calls of \<^verbatim>\<open>stop()\<close>.
\<close>

record recognition =
  continuous :: bool
  interimResults :: bool
  maxAlternatives :: nat
  lang :: string
  startCalls :: nat
  stopCalls :: nat

text \<open>
  \<^verbatim>\<open>start()\<close> may throw (the hook calls it inside \<^verbatim>\<open>try\<close>): the Web Speech API makes
  it throw an \<^verbatim>\<open>InvalidStateError\<close> on an instance that is already started. Whether the
  call throws is the host's decision and an input of the model.
\<close>

definition start :: "bool \<Rightarrow> recognition \<Rightarrow> js_error + recognition" where
  "start throws r =
     (if throws then Inl InvalidStateError else Inr (r\<lparr>startCalls := startCalls r + 1\<rparr>))"

definition stop :: "recognition \<Rightarrow> recognition" where
  "stop r = r\<lparr>stopCalls := stopCalls r + 1\<rparr>"

text \<open>
  A \<^verbatim>\<open>SpeechRecognitionEvent\<close>: \<^verbatim>\<open>resultIndex\<close> and the list of results; a result has
  the flag \<^verbatim>\<open>isFinal\<close> and its alternatives, of which the hook reads the transcript of the
  first one.
\<close>

datatype speech_result = SpeechResult (isFinal: bool) (alternatives: "jsstring list")

record speech_event =
  resultIndex :: nat
  results :: "speech_result list"

section \<open>The hook useVoiceRecognition\<close>

text \<open>
  \<^verbatim>\<open>VoiceRecognitionConfig\<close>. The callback \<^verbatim>\<open>onTranscriptReady\<close> acts on the caller's
  world \<open>'w\<close> (for the chat page: the page's state).
\<close>

record 'w config =
  language :: lang
  onTranscriptReady :: "jsstring \<Rightarrow> lang option \<Rightarrow> 'w \<Rightarrow> 'w"
  autoDetect :: "bool option"

text \<open>
  The state of the hook: the five \<^verbatim>\<open>useState\<close> cells and the two refs. \<open>constructed\<close> is
  not part of the source: it counts the \<^verbatim>\<open>SpeechRecognition\<close> instances constructed.
\<close>

record voice_state =
  isRecording :: bool
  isTranscribing :: bool
  transcript :: jsstring
  error :: "jsstring option"
  detectedLanguage :: "lang option"
  recognitionRef :: "recognition option"
  timeoutRef :: "nat option"
  constructed :: nat

text \<open>
  The first render and the effect that runs once on mount: the instance is constructed
  only when \<^verbatim>\<open>isSupported\<close> holds.
\<close>

definition mount :: "bool \<Rightarrow> 'w config \<Rightarrow> voice_state" where
  "mount isSupported cfg =
     \<lparr>isRecording = False, isTranscribing = False, transcript = [], error = None,
      detectedLanguage = None,
      recognitionRef =
        (if isSupported
         then Some \<lparr>continuous = False, interimResults = True, maxAlternatives = 1,
                    lang = getLanguageCode (language cfg), startCalls = 0, stopCalls = 0\<rparr>
         else None),
      timeoutRef = None,
      constructed = (if isSupported then 1 else 0)\<rparr>"

text \<open>
  \<^verbatim>\<open>
  recognition.onstart = () => {
    setIsRecording(true);
    setIsTranscribing(true);
    setError(null);
  };
  \<close>
\<close>

definition onstart :: "voice_state \<Rightarrow> voice_state" where
  "onstart v = v\<lparr>isRecording := True, isTranscribing := True, error := None\<rparr>"

text \<open>
  The loop of \<^verbatim>\<open>onresult\<close> over the results from \<^verbatim>\<open>resultIndex\<close> on, with the two
  accumulators \<^verbatim>\<open>interimTranscript\<close> and \<^verbatim>\<open>finalTranscript\<close>. \<^verbatim>\<open>result[0].transcript\<close>
  of a result with no alternative raises a TypeError.
\<close>

fun collect :: "speech_result list \<Rightarrow> jsstring \<times> jsstring \<Rightarrow> js_error + (jsstring \<times> jsstring)" where
  "collect [] acc = Inr acc"
| "collect (r # rs) (interimTranscript, finalTranscript) =
     (case alternatives r of
        [] \<Rightarrow> Inl TypeError
      | t # _ \<Rightarrow>
          (if isFinal r then collect rs (interimTranscript, finalTranscript @ t)
           else collect rs (interimTranscript @ t, finalTranscript)))"

definition transcripts :: "speech_event \<Rightarrow> js_error + (jsstring \<times> jsstring)" where
  "transcripts ev = collect (drop (resultIndex ev) (results ev)) ([], [])"

text \<open>
  \<^verbatim>\<open>
  const currentTranscript = finalTranscript || interimTranscript;
  setTranscript(currentTranscript);
  if (finalTranscript) {
    setIsTranscribing(false);
    const detectedLang = config.autoDetect !== false ? detectLanguage(finalTranscript) : null;
    setDetectedLanguage(detectedLang);
    config.onTranscriptReady(finalTranscript, detectedLang);
  } else {
    setIsTranscribing(true);
  }
  \<close>
  The handler takes the hook's state and the caller's world, and returns both.
\<close>

definition onresult ::
    "'w config \<Rightarrow> speech_event \<Rightarrow> voice_state \<times> 'w \<Rightarrow> js_error + (voice_state \<times> 'w)" where
  "onresult cfg ev vw =
     (case transcripts ev of
        Inl e \<Rightarrow> Inl e
      | Inr (interimTranscript, finalTranscript) \<Rightarrow>
          (let currentTranscript =
                 (if finalTranscript \<noteq> [] then finalTranscript else interimTranscript);
               v1 = (fst vw)\<lparr>transcript := currentTranscript\<rparr>
           in if finalTranscript \<noteq> []
              then
                (let detectedLang =
                       (if autoDetect cfg \<noteq> Some False
                        then Some (detectLanguage finalTranscript) else None)
                 in Inr (v1\<lparr>isTranscribing := False, detectedLanguage := detectedLang\<rparr>,
                         onTranscriptReady cfg finalTranscript detectedLang (snd vw)))
              else Inr (v1\<lparr>isTranscribing := True\<rparr>, snd vw)))"

text \<open>
  \<^verbatim>\<open>
  recognition.onerror = (event) => {
    setIsRecording(false);
    setIsTranscribing(false);
    const errorCode = event.error as SpeechRecognitionErrorCode;
    const errorMessage = getVoiceErrorMessage(errorCode, config.language);
    setError(errorMessage);
  };
  recognition.onend = () => {
    setIsRecording(false);
    setIsTranscribing(false);
  };
  \<close>
\<close>

definition onerror :: "'w config \<Rightarrow> string \<Rightarrow> voice_state \<Rightarrow> voice_state" where
  "onerror cfg code v =
     (let v1 = v\<lparr>isRecording := False, isTranscribing := False\<rparr>
      in case getVoiceErrorMessage code (language cfg) of
           Inl _ \<Rightarrow> v1
         | Inr errorMessage \<Rightarrow> v1\<lparr>error := Some errorMessage\<rparr>)"

definition onend :: "voice_state \<Rightarrow> voice_state" where
  "onend v = v\<lparr>isRecording := False, isTranscribing := False\<rparr>"

text \<open>
  The effect on \<^verbatim>\<open>config.language\<close>:
  \<^verbatim>\<open>
  useEffect(() => {
    if (recognitionRef.current && isSupported) {
      recognitionRef.current.lang = getLanguageCode(config.language);
    }
  }, [config.language]);
  \<close>
\<close>

definition languageEffect :: "bool \<Rightarrow> 'w config \<Rightarrow> voice_state \<Rightarrow> voice_state" where
  "languageEffect isSupported cfg v =
     (case recognitionRef v of
        None \<Rightarrow> v
      | Some r \<Rightarrow>
          (if isSupported
           then v\<lparr>recognitionRef := Some (r\<lparr>lang := getLanguageCode (language cfg)\<rparr>)\<rparr>
           else v))"

text \<open>
  \<^verbatim>\<open>
  const startRecording = useCallback(() => {
    if (!isSupported) {
      setError(getVoiceErrorMessage('not-supported', config.language));
      return;
    }
    if (recognitionRef.current) {
      try {
        recognitionRef.current.lang = getLanguageCode(config.language);
        recognitionRef.current.start();
      } catch (err) {
        setError(getVoiceErrorMessage('not-allowed', config.language));
      }
    }
  }, [isSupported, config.language]);
  \<close>
\<close>

definition startRecording :: "bool \<Rightarrow> 'w config \<Rightarrow> bool \<Rightarrow> voice_state \<Rightarrow> voice_state" where
  "startRecording isSupported cfg throws v =
     (if \<not> isSupported
      then (case getVoiceErrorMessage ''not-supported'' (language cfg) of
              Inl _ \<Rightarrow> v
            | Inr m \<Rightarrow> v\<lparr>error := Some m\<rparr>)
      else (case recognitionRef v of
              None \<Rightarrow> v
            | Some r \<Rightarrow>
                (let r1 = r\<lparr>lang := getLanguageCode (language cfg)\<rparr>
                 in case start throws r1 of
                      Inr r2 \<Rightarrow> v\<lparr>recognitionRef := Some r2\<rparr>
                    | Inl _ \<Rightarrow>
                        (case getVoiceErrorMessage ''not-allowed'' (language cfg) of
                           Inl _ \<Rightarrow> v\<lparr>recognitionRef := Some r1\<rparr>
                         | Inr m \<Rightarrow> v\<lparr>recognitionRef := Some r1, error := Some m\<rparr>))))"

text \<open>
  \<^verbatim>\<open>
  const stopRecording = useCallback(() => {
    if (recognitionRef.current) {
      recognitionRef.current.stop();
    }
  }, []);
  const resetTranscript = useCallback(() => {
    setTranscript('');
    setError(null);
  }, []);
  \<close>
\<close>

definition stopRecording :: "voice_state \<Rightarrow> voice_state" where
  "stopRecording v =
     (case recognitionRef v of
        None \<Rightarrow> v
      | Some r \<Rightarrow> v\<lparr>recognitionRef := Some (stop r)\<rparr>)"

definition resetTranscript :: "voice_state \<Rightarrow> voice_state" where
  "resetTranscript v = v\<lparr>transcript := [], error := None\<rparr>"


section \<open>The chat page: the caller of the hook\<close>

text \<open>
  The part of the page's state the voice hand-off touches: the \<^verbatim>\<open>useState\<close> cells
  \<^verbatim>\<open>language\<close> (here \<open>pageLanguage\<close>) and \<^verbatim>\<open>inputMessage\<close>, and the page's own ref
  \<^verbatim>\<open>timeoutRef\<close> (here \<open>pageTimeoutRef\<close>). The host's timers are part of the world:
  \<open>timers\<close> holds the armed timeouts, each with its id and the transcript its callback
  captured, and \<open>nextTimer\<close> is the id the next \<^verbatim>\<open>setTimeout\<close> returns (ids are positive).
  \<open>sendCalls\<close> counts the calls of \<^verbatim>\<open>sendMessage()\<close> made by timer callbacks and
  \<open>readyCalls\<close> lists the invocations of \<^verbatim>\<open>onTranscriptReady\<close>, oldest first; neither is
  part of the source. What \<^verbatim>\<open>sendMessage\<close> does with the message is outside the model.
\<close>

record page_state =
  pageLanguage :: lang
  inputMessage :: jsstring
  pageTimeoutRef :: "nat option"
  timers :: "(nat \<times> jsstring) list"
  nextTimer :: nat
  sendCalls :: nat
  readyCalls :: "(jsstring \<times> lang option) list"

definition setTimeout :: "jsstring \<Rightarrow> page_state \<Rightarrow> nat \<times> page_state" where
  "setTimeout captured p =
     (nextTimer p, p\<lparr>timers := timers p @ [(nextTimer p, captured)], nextTimer := nextTimer p + 1\<rparr>)"

definition clearTimeout :: "nat \<Rightarrow> page_state \<Rightarrow> page_state" where
  "clearTimeout t p = p\<lparr>timers := filter (\<lambda>x. fst x \<noteq> t) (timers p)\<rparr>"

text \<open>
  \<^verbatim>\<open>
  const handleVoiceTranscript = (transcript: string) => {
    setInputMessage(transcript);
    if (timeoutRef.current) {
      clearTimeout(timeoutRef.current);
    }
    timeoutRef.current = setTimeout(() => {
      if (transcript.trim()) {
        sendMessage();
      }
    }, 300);
  };
  \<close>
  A timer id of 0 would be falsy.
\<close>

definition handleVoiceTranscript :: "jsstring \<Rightarrow> page_state \<Rightarrow> page_state" where
  "handleVoiceTranscript text p =
     (let p1 = p\<lparr>inputMessage := text\<rparr>;
          p2 = (case pageTimeoutRef p1 of
                  None \<Rightarrow> p1
                | Some t \<Rightarrow> (if t \<noteq> 0 then clearTimeout t p1 else p1));
          (t, p3) = setTimeout text p2
      in p3\<lparr>pageTimeoutRef := Some t\<rparr>)"

text \<open>
  \<^verbatim>\<open>String.prototype.trim\<close> removes white space and line terminators from both ends.
\<close>

definition isWhiteSpace :: "16 word \<Rightarrow> bool" where
  "isWhiteSpace u =
     (u \<in> {0x0009, 0x000A, 0x000B, 0x000C, 0x000D, 0x0020, 0x00A0, 0x1680, 0x2028, 0x2029,
            0x202F, 0x205F, 0x3000, 0xFEFF}
      \<or> (0x2000 \<le> u \<and> u \<le> 0x200A))"

definition trim :: "jsstring \<Rightarrow> jsstring" where
  "trim text = rev (dropWhile isWhiteSpace (rev (dropWhile isWhiteSpace text)))"

text \<open>The host fires the timeout \<open>t\<close>, if it is armed: the callback of \<^verbatim>\<open>handleVoiceTranscript\<close> runs.\<close>

definition timerFire :: "nat \<Rightarrow> page_state \<Rightarrow> page_state" where
  "timerFire t p =
     (case map_of (timers p) t of
        None \<Rightarrow> p
      | Some captured \<Rightarrow>
          (let p1 = p\<lparr>timers := filter (\<lambda>x. fst x \<noteq> t) (timers p)\<rparr>
           in if trim captured \<noteq> [] then p1\<lparr>sendCalls := sendCalls p1 + 1\<rparr> else p1))"

text \<open>
  The callback the page passes to the hook, as a render with \<^verbatim>\<open>language = l\<close> builds it:
  \<^verbatim>\<open>
  onTranscriptReady: (text, detectedLanguage) => {
    setInputMessage(text);
    if (detectedLanguage && detectedLanguage !== language) {
      setLanguage(detectedLanguage);
    }
    handleVoiceTranscript(text);
  },
  autoDetect: true
  \<close>
\<close>

definition pageOnTranscriptReady :: "lang \<Rightarrow> jsstring \<Rightarrow> lang option \<Rightarrow> page_state \<Rightarrow> page_state" where
  "pageOnTranscriptReady l text detected p =
     (let p1 = p\<lparr>inputMessage := text\<rparr>;
          p2 = (case detected of
                  None \<Rightarrow> p1
                | Some d \<Rightarrow> (if d \<noteq> l then p1\<lparr>pageLanguage := d\<rparr> else p1))
      in handleVoiceTranscript text p2)"

text \<open>
  The config object of a render with \<^verbatim>\<open>language = l\<close>. The callback first records its own
  invocation in \<open>readyCalls\<close>.
\<close>

definition chatConfig :: "lang \<Rightarrow> page_state config" where
  "chatConfig l =
     \<lparr>language = l,
      onTranscriptReady =
        (\<lambda>text detected p.
           pageOnTranscriptReady l text detected (p\<lparr>readyCalls := readyCalls p @ [(text, detected)]\<rparr>)),
      autoDetect = Some True\<rparr>"

definition toggleLanguage :: "page_state \<Rightarrow> page_state" where
  "toggleLanguage p = p\<lparr>pageLanguage := (if pageLanguage p = En then Ur else En)\<rparr>"

section \<open>The mounted page with its hook, driven by the user and the host\<close>

record app =
  isSupported :: bool
  hook :: voice_state
  chat :: page_state

text \<open>
  The page's \<^verbatim>\<open>language\<close> starts as \<^verbatim>\<open>'en'\<close>. The effect that builds the recognition
  object and its handlers has no dependencies: it runs once, and the handlers keep the
  config of the first render, \<open>chatConfig En\<close>. \<^verbatim>\<open>startRecording\<close> and the language effect
  depend on \<^verbatim>\<open>config.language\<close> and see the current config. The model covers the life
  of the mounted page: the cleanup functions that run when the page goes away (they clear the
  hook's \<^verbatim>\<open>timeoutRef\<close>, call \<^verbatim>\<open>stop()\<close> and drop the recognition object) are not
  part of it.
\<close>

definition mountApp :: "bool \<Rightarrow> app" where
  "mountApp supported =
     \<lparr>isSupported = supported,
      hook = mount supported (chatConfig En),
      chat = \<lparr>pageLanguage = En, inputMessage = [], pageTimeoutRef = None, timers = [],
              nextTimer = 1, sendCalls = 0, readyCalls = []\<rparr>\<rparr>"

datatype event =
    StartRecording bool
  | StopRecording
  | ResetTranscript
  | OnStart
  | OnResult speech_event
  | OnError string
  | OnEnd
  | ToggleLanguage
  | TimerFire nat

text \<open>The language effect runs after a render in which \<^verbatim>\<open>config.language\<close> has changed.\<close>

definition afterRender :: "app \<Rightarrow> app \<Rightarrow> app" where
  "afterRender old new =
     (if pageLanguage (chat new) \<noteq> pageLanguage (chat old)
      then new\<lparr>hook := languageEffect (isSupported new) (chatConfig (pageLanguage (chat new))) (hook new)\<rparr>
      else new)"

text \<open>
  One step: an action of the hook called by the user interface (\<open>StartRecording throws\<close>
  says whether the host makes \<^verbatim>\<open>start()\<close> throw), an event of the recognition object, a
  click on the language button, or a timeout that fires. The recognition events reach a
  handler only when the object exists; a handler that throws leaves the state as it is.
\<close>

definition step :: "event \<Rightarrow> app \<Rightarrow> app" where
  "step e a =
     (case e of
        StartRecording throws \<Rightarrow>
          a\<lparr>hook := startRecording (isSupported a) (chatConfig (pageLanguage (chat a))) throws (hook a)\<rparr>
      | StopRecording \<Rightarrow> a\<lparr>hook := stopRecording (hook a)\<rparr>
      | ResetTranscript \<Rightarrow> a\<lparr>hook := resetTranscript (hook a)\<rparr>
      | OnStart \<Rightarrow>
          (if recognitionRef (hook a) = None then a else a\<lparr>hook := onstart (hook a)\<rparr>)
      | OnResult ev \<Rightarrow>
          (if recognitionRef (hook a) = None then a
           else (case onresult (chatConfig En) ev (hook a, chat a) of
                   Inl _ \<Rightarrow> a
                 | Inr vw \<Rightarrow> afterRender a (a\<lparr>hook := fst vw, chat := snd vw\<rparr>)))
      | OnError code \<Rightarrow>
          (if recognitionRef (hook a) = None then a
           else a\<lparr>hook := onerror (chatConfig En) code (hook a)\<rparr>)
      | OnEnd \<Rightarrow>
          (if recognitionRef (hook a) = None then a else a\<lparr>hook := onend (hook a)\<rparr>)
      | ToggleLanguage \<Rightarrow> afterRender a (a\<lparr>chat := toggleLanguage (chat a)\<rparr>)
      | TimerFire t \<Rightarrow> a\<lparr>chat := timerFire t (chat a)\<rparr>)"

definition run :: "event list \<Rightarrow> app \<Rightarrow> app" where
  "run es a = foldl (\<lambda>x e. step e x) a es"

section \<open>Predicates used in the statements and proofs\<close>

text \<open>
  A result event that carries a non-empty final transcript, as \<^verbatim>\<open>onresult\<close> reads it.
\<close>

definition finalEvent :: "event \<Rightarrow> bool" where
  "finalEvent e =
     (case e of
        OnResult ev \<Rightarrow> (case transcripts ev of Inl _ \<Rightarrow> False | Inr tf \<Rightarrow> snd tf \<noteq> [])
      | _ \<Rightarrow> False)"

text \<open>
  The invariants of the reachable states. For the page: timer ids are positive, at most one
  timeout is armed and the page's ref names it, and every call of \<^verbatim>\<open>sendMessage\<close> by a
  timer and every armed timeout goes back to an invocation of the callback. For the hook:
  its own \<^verbatim>\<open>timeoutRef\<close> is never set, one recognition object exists when the host
  supports the API and none otherwise, and the object's language tag is the code of the
  page's current language.
\<close>

definition page_inv :: "page_state \<Rightarrow> bool" where
  "page_inv p =
     (0 < nextTimer p \<and> length (timers p) \<le> 1 \<and>
      (\<forall>x\<in>set (timers p). pageTimeoutRef p = Some (fst x) \<and> 0 < fst x \<and> fst x < nextTimer p) \<and>
      sendCalls p + length (timers p) \<le> length (readyCalls p))"

definition hook_inv :: "bool \<Rightarrow> lang \<Rightarrow> voice_state \<Rightarrow> bool" where
  "hook_inv supported l v =
     (timeoutRef v = None \<and>
      constructed v = (if supported then 1 else 0) \<and>
      (if supported then \<exists>r. recognitionRef v = Some r \<and> lang r = getLanguageCode l
       else recognitionRef v = None))"

definition app_inv :: "bool \<Rightarrow> app \<Rightarrow> bool" where
  "app_inv supported a =
     (isSupported a = supported \<and> hook_inv supported (pageLanguage (chat a)) (hook a) \<and>
      page_inv (chat a))"


section \<open>Auxiliary facts\<close>

subsection \<open>Runs\<close>

lemma run_Nil [simp]: "run [] a = a"
  by (simp add: run_def)

lemma run_snoc [simp]: "run (es @ [e]) a = step e (run es a)"
  by (simp add: run_def)

lemma run_Cons: "run (e # es) a = run es (step e a)"
  by (simp add: run_def)

subsection \<open>The page keeps its invariant\<close>

lemma length_filter_le1:
  "length xs \<le> 1 \<Longrightarrow> \<forall>x\<in>set xs. fst x = t \<Longrightarrow> filter (\<lambda>x. fst x \<noteq> t) xs = []"
  by (cases xs) auto

lemma handleVoiceTranscript_timers:
  assumes "page_inv p"
  shows "timers (handleVoiceTranscript text p) = [(nextTimer p, text)] \<and>
         pageTimeoutRef (handleVoiceTranscript text p) = Some (nextTimer p) \<and>
         nextTimer (handleVoiceTranscript text p) = nextTimer p + 1 \<and>
         sendCalls (handleVoiceTranscript text p) = sendCalls p \<and>
         readyCalls (handleVoiceTranscript text p) = readyCalls p \<and>
         pageLanguage (handleVoiceTranscript text p) = pageLanguage p"
proof (cases "timers p")
  case Nil
  then show ?thesis
    by (simp add: handleVoiceTranscript_def setTimeout_def clearTimeout_def Let_def split: option.splits)
next
  case (Cons x xs)
  with assms have xs: "xs = []" and ref: "pageTimeoutRef p = Some (fst x)" and pos: "0 < fst x"
    by (auto simp: page_inv_def)
  with Cons show ?thesis
    by (simp add: handleVoiceTranscript_def setTimeout_def clearTimeout_def Let_def)
qed

lemma callback_page_inv:
  assumes "page_inv p"
  shows "page_inv (onTranscriptReady (chatConfig l) text d p)"
proof -
  let ?q = "p\<lparr>readyCalls := readyCalls p @ [(text, d)]\<rparr>"
  let ?q1 = "?q\<lparr>inputMessage := text\<rparr>"
  let ?q2 = "(case d of None \<Rightarrow> ?q1 | Some x \<Rightarrow> if x \<noteq> l then ?q1\<lparr>pageLanguage := x\<rparr> else ?q1)"
  from assms have inv2: "page_inv (?q2\<lparr>readyCalls := readyCalls p\<rparr>)"
    by (auto simp: page_inv_def split: option.splits)
  have rc: "readyCalls ?q2 = readyCalls p @ [(text, d)]" and sc: "sendCalls ?q2 = sendCalls p"
    and nt: "nextTimer ?q2 = nextTimer p"
    by (auto split: option.splits)
  from assms have inv3: "page_inv ?q2"
    by (auto simp: page_inv_def split: option.splits)
  from handleVoiceTranscript_timers [OF inv3, of "text"] rc sc nt assms
  have "page_inv (handleVoiceTranscript text ?q2)"
    by (auto simp: page_inv_def)
  then show ?thesis
    by (simp add: chatConfig_def pageOnTranscriptReady_def Let_def)
qed

lemma callback_readyCalls:
  assumes "page_inv p"
  shows "readyCalls (onTranscriptReady (chatConfig l) text d p) = readyCalls p @ [(text, d)]"
proof -
  let ?q = "p\<lparr>readyCalls := readyCalls p @ [(text, d)]\<rparr>"
  let ?q1 = "?q\<lparr>inputMessage := text\<rparr>"
  let ?q2 = "(case d of None \<Rightarrow> ?q1 | Some x \<Rightarrow> if x \<noteq> l then ?q1\<lparr>pageLanguage := x\<rparr> else ?q1)"
  have rc: "readyCalls ?q2 = readyCalls p @ [(text, d)]"
    by (auto split: option.splits)
  from assms have inv3: "page_inv ?q2"
    by (auto simp: page_inv_def split: option.splits)
  from handleVoiceTranscript_timers [OF inv3, of "text"] rc
  show ?thesis
    by (simp add: chatConfig_def pageOnTranscriptReady_def Let_def)
qed

lemma timerFire_page_inv:
  assumes "page_inv p"
  shows "page_inv (timerFire t p)"
proof (cases "map_of (timers p) t")
  case None
  with assms show ?thesis by (simp add: timerFire_def)
next
  case (Some c)
  then have mem: "(t, c) \<in> set (timers p)" by (rule map_of_SomeD)
  with assms have "timers p = [(t, c)]"
    by (cases "timers p") (auto simp: page_inv_def)
  with assms Some show ?thesis
    by (auto simp: timerFire_def page_inv_def Let_def)
qed

lemma timerFire_readyCalls: "readyCalls (timerFire t p) = readyCalls p"
  by (simp add: timerFire_def Let_def split: option.splits)

lemma toggleLanguage_page_inv: "page_inv p \<Longrightarrow> page_inv (toggleLanguage p)"
  by (simp add: toggleLanguage_def page_inv_def)

subsection \<open>Every step keeps the invariant\<close>

lemma chatConfig_simps [simp]:
  "language (chatConfig l) = l" "autoDetect (chatConfig l) = Some True"
  by (simp_all add: chatConfig_def)

lemma timerFire_pageLanguage [simp]: "pageLanguage (timerFire t p) = pageLanguage p"
  by (simp add: timerFire_def Let_def split: option.splits)

lemma afterRender_inv:
  assumes "isSupported new = supported"
    and "hook_inv supported (pageLanguage (chat old)) (hook new)"
    and "page_inv (chat new)"
  shows "app_inv supported (afterRender old new)"
  using assms
  by (auto simp: app_inv_def afterRender_def hook_inv_def languageEffect_def split: if_splits)

lemma onresult_cases:
  "onresult cfg ev (v, w) =
     (case transcripts ev of
        Inl e \<Rightarrow> Inl e
      | Inr tf \<Rightarrow>
          (if snd tf \<noteq> []
           then Inr (v\<lparr>transcript := snd tf, isTranscribing := False,
                       detectedLanguage :=
                         (if autoDetect cfg \<noteq> Some False then Some (detectLanguage (snd tf)) else None)\<rparr>,
                     onTranscriptReady cfg (snd tf)
                       (if autoDetect cfg \<noteq> Some False then Some (detectLanguage (snd tf)) else None) w)
           else Inr (v\<lparr>transcript := fst tf, isTranscribing := True\<rparr>, w)))"
  by (simp add: onresult_def Let_def split: sum.splits prod.splits)

lemma onresult_inv:
  assumes "app_inv supported a" and "onresult (chatConfig En) ev (hook a, chat a) = Inr vw"
  shows "hook_inv supported (pageLanguage (chat a)) (fst vw) \<and> page_inv (snd vw)"
  using assms callback_page_inv [of "chat a" En]
  by (auto simp: onresult_cases app_inv_def hook_inv_def split: sum.splits if_splits)

lemma step_app_inv:
  assumes "app_inv supported a"
  shows "app_inv supported (step e a)"
proof (cases e)
  case (StartRecording throws)
  with assms show ?thesis
    by (auto simp: step_def app_inv_def hook_inv_def startRecording_def start_def Let_def
        split: sum.splits option.splits)
next
  case StopRecording
  with assms show ?thesis
    by (auto simp: step_def app_inv_def hook_inv_def stopRecording_def stop_def split: option.splits)
next
  case ResetTranscript
  with assms show ?thesis
    by (auto simp: step_def app_inv_def hook_inv_def resetTranscript_def)
next
  case OnStart
  with assms show ?thesis
    by (auto simp: step_def app_inv_def hook_inv_def onstart_def)
next
  case (OnResult ev)
  show ?thesis
  proof (cases "recognitionRef (hook a) = None")
    case True
    with OnResult assms show ?thesis by (simp add: step_def)
  next
    case False
    show ?thesis
    proof (cases "onresult (chatConfig En) ev (hook a, chat a)")
      case (Inl x)
      with False OnResult assms show ?thesis by (simp add: step_def)
    next
      case (Inr vw)
      from onresult_inv [OF assms Inr] assms
      have "app_inv supported (afterRender a (a\<lparr>hook := fst vw, chat := snd vw\<rparr>))"
        by (intro afterRender_inv) (simp_all add: app_inv_def)
      with False OnResult Inr show ?thesis by (auto simp add: step_def)
    qed
  qed
next
  case (OnError code)
  with assms show ?thesis
    by (auto simp: step_def app_inv_def hook_inv_def onerror_def Let_def split: sum.splits)
next
  case OnEnd
  with assms show ?thesis
    by (auto simp: step_def app_inv_def hook_inv_def onend_def)
next
  case ToggleLanguage
  from assms have "app_inv supported (afterRender a (a\<lparr>chat := toggleLanguage (chat a)\<rparr>))"
    by (intro afterRender_inv) (simp_all add: app_inv_def toggleLanguage_page_inv)
  with ToggleLanguage show ?thesis by (simp add: step_def)
next
  case (TimerFire t)
  with assms show ?thesis
    by (auto simp: step_def app_inv_def timerFire_page_inv)
qed

lemma mountApp_inv: "app_inv supported (mountApp supported)"
  by (simp add: app_inv_def hook_inv_def page_inv_def mountApp_def mount_def chatConfig_def)

lemma run_app_inv: "app_inv supported a \<Longrightarrow> app_inv supported (run es a)"
  by (induction es rule: rev_induct) (simp_all add: step_app_inv)

lemma reachable_inv: "app_inv supported (run es (mountApp supported))"
  by (rule run_app_inv [OF mountApp_inv])

subsection \<open>Counting the invocations of the callback\<close>

lemma step_readyCalls:
  assumes "app_inv supported a"
  shows "length (readyCalls (chat (step e a))) =
         length (readyCalls (chat a)) + (if supported \<and> finalEvent e then 1 else 0)"
proof (cases e)
  case (OnResult ev)
  show ?thesis
  proof (cases "recognitionRef (hook a) = None")
    case True
    with assms have "\<not> supported" by (auto simp: app_inv_def hook_inv_def split: if_splits)
    with True OnResult show ?thesis by (simp add: step_def)
  next
    case False
    with assms have sup: "supported" by (auto simp: app_inv_def hook_inv_def split: if_splits)
    from assms have pinv: "page_inv (chat a)" by (simp add: app_inv_def)
    from False OnResult sup callback_readyCalls [OF pinv, of En]
    show ?thesis
      by (auto simp: step_def onresult_cases finalEvent_def afterRender_def split: sum.splits)
  qed
qed (auto simp: step_def finalEvent_def timerFire_readyCalls toggleLanguage_def afterRender_def)

lemma run_readyCalls:
  "length (readyCalls (chat (run es (mountApp supported)))) =
     (if supported then length (filter finalEvent es) else 0)"
proof (induction es rule: rev_induct)
  case Nil
  show ?case by (simp add: mountApp_def)
next
  case (snoc e es)
  from step_readyCalls [OF reachable_inv [of supported es], of e] snoc
  show ?case by simp
qed

subsection \<open>The error messages\<close>

lemma getVoiceErrorMessage_not_empty:
  "\<exists>m. getVoiceErrorMessage c l = Inr m \<and> m \<noteq> []"
proof -
  have net: "map_of ERROR_MESSAGES ''network'' \<noteq> None"
    by (simp add: ERROR_MESSAGES_def)
  have "entryAt e l \<noteq> []" if "map_of ERROR_MESSAGES k = Some e" for k e
    using that
    by (cases l) (auto simp: ERROR_MESSAGES_def entryAt_def ascii_def split: if_splits)
  with net show ?thesis
    by (auto simp: getVoiceErrorMessage_def split: option.splits)
qed

subsection \<open>Evaluation of concrete runs\<close>

lemmas eval_simps = run_def step_def mountApp_def mount_def startRecording_def start_def stop_def
  stopRecording_def onstart_def onend_def onerror_def onresult_def transcripts_def
  chatConfig_def pageOnTranscriptReady_def handleVoiceTranscript_def setTimeout_def
  clearTimeout_def timerFire_def afterRender_def languageEffect_def toggleLanguage_def
  getLanguageCode_def detectLanguage_def containsUrdu_def ascii_def resetTranscript_def
  getVoiceErrorMessage_def ERROR_MESSAGES_def entryAt_def trim_def isWhiteSpace_def Let_def

lemma reachable_handle:
  assumes "a = run es (mountApp True)"
  shows "\<exists>r. recognitionRef (hook a) = Some r \<and> lang r = getLanguageCode (pageLanguage (chat a))"
    and "isSupported a" and "constructed (hook a) = 1" and "timeoutRef (hook a) = None"
    and "page_inv (chat a)"
  using reachable_inv [of True es] assms by (simp_all add: app_inv_def hook_inv_def)


section \<open>C1: the flags isRecording and isTranscribing\<close>

text \<open>
  The claim that the two flags are never both true fails on the code: \<^verbatim>\<open>onstart\<close> sets
  both. After \<^verbatim>\<open>startRecording()\<close> and the session-started event of a supporting host,
  \<^verbatim>\<open>isRecording\<close> and \<^verbatim>\<open>isTranscribing\<close> are both true.
\<close>

theorem both_flags_after_onstart:
  "isRecording (hook (run [StartRecording False, OnStart] (mountApp True))) \<and>
   isTranscribing (hook (run [StartRecording False, OnStart] (mountApp True)))"
  by (simp add: eval_simps)

text \<open>
  C1, as the code has it. In every reachable state of a supporting host the flags follow
  the last event: the session-started event sets both flags; \<^verbatim>\<open>onerror\<close> and \<^verbatim>\<open>onend\<close>
  clear both; a result event leaves \<^verbatim>\<open>isRecording\<close> as it is and makes \<^verbatim>\<open>isTranscribing\<close>
  true exactly when its final transcript is empty (so the flags are both true from the start
  of a session up to its first non-empty final transcript); \<^verbatim>\<open>startRecording\<close>,
  \<^verbatim>\<open>stopRecording\<close> and \<^verbatim>\<open>resetTranscript\<close> change neither flag, and neither does a
  change of the display language or a timeout of the page.
\<close>

theorem flags_follow_events:
  assumes "a = run es (mountApp True)"
  shows "isRecording (hook (step OnStart a)) \<and> isTranscribing (hook (step OnStart a)) \<and>
    \<not> isRecording (hook (step (OnError c) a)) \<and> \<not> isTranscribing (hook (step (OnError c) a)) \<and>
    \<not> isRecording (hook (step OnEnd a)) \<and> \<not> isTranscribing (hook (step OnEnd a)) \<and>
    (transcripts ev = Inr (i, f) \<longrightarrow>
       isRecording (hook (step (OnResult ev) a)) = isRecording (hook a) \<and>
       isTranscribing (hook (step (OnResult ev) a)) = (f = [])) \<and>
    (e \<in> {StartRecording t, StopRecording, ResetTranscript, ToggleLanguage, TimerFire k} \<longrightarrow>
       isRecording (hook (step e a)) = isRecording (hook a) \<and>
       isTranscribing (hook (step e a)) = isTranscribing (hook a))"
proof -
  from reachable_handle(1) [OF assms] obtain r where r: "recognitionRef (hook a) = Some r"
    by blast
  have 1: "isRecording (hook (step OnStart a)) \<and> isTranscribing (hook (step OnStart a))"
    using r by (simp add: step_def onstart_def)
  have 2: "\<not> isRecording (hook (step (OnError c) a)) \<and> \<not> isTranscribing (hook (step (OnError c) a))"
    using r by (simp add: step_def onerror_def Let_def split: sum.splits)
  have 3: "\<not> isRecording (hook (step OnEnd a)) \<and> \<not> isTranscribing (hook (step OnEnd a))"
    using r by (simp add: step_def onend_def)
  have 4: "transcripts ev = Inr (i, f) \<longrightarrow>
       isRecording (hook (step (OnResult ev) a)) = isRecording (hook a) \<and>
       isTranscribing (hook (step (OnResult ev) a)) = (f = [])"
    using r by (simp add: step_def onresult_cases afterRender_def languageEffect_def)
  have 5: "e \<in> {StartRecording t, StopRecording, ResetTranscript, ToggleLanguage, TimerFire k} \<longrightarrow>
       isRecording (hook (step e a)) = isRecording (hook a) \<and>
       isTranscribing (hook (step e a)) = isTranscribing (hook a)"
    using r by (auto simp: step_def startRecording_def start_def stopRecording_def
        resetTranscript_def afterRender_def languageEffect_def Let_def split: sum.splits)
  from 1 2 3 4 5 show ?thesis by blast
qed

text \<open>
  The theorem at a concrete session: after \<^verbatim>\<open>startRecording()\<close> the session-started event
  sets both flags, the final result "hi" clears \<^verbatim>\<open>isTranscribing\<close>, and \<^verbatim>\<open>stopRecording()\<close>
  leaves \<^verbatim>\<open>isRecording\<close> true.
\<close>

theorem flags_follow_events_witness:
  "transcripts \<lparr>resultIndex = 0, results = [SpeechResult True [ascii ''hi'']]\<rparr> = Inr ([], ascii ''hi'') \<and>
   isRecording (hook (step OnStart (run [StartRecording False] (mountApp True)))) \<and>
   isTranscribing (hook (step OnStart (run [StartRecording False] (mountApp True)))) \<and>
   \<not> isTranscribing (hook (step (OnResult \<lparr>resultIndex = 0, results = [SpeechResult True [ascii ''hi'']]\<rparr>)
        (run [StartRecording False, OnStart] (mountApp True)))) \<and>
   isRecording (hook (step StopRecording (run [StartRecording False, OnStart] (mountApp True))))"
proof -
  have t: "transcripts \<lparr>resultIndex = 0, results = [SpeechResult True [ascii ''hi'']]\<rparr> = Inr ([], ascii ''hi'')"
    by (simp add: transcripts_def)
  have n: "ascii ''hi'' \<noteq> []" by (simp add: ascii_def)
  have r: "isRecording (hook (run [StartRecording False, OnStart] (mountApp True)))"
    by (simp add: eval_simps)
  from flags_follow_events [OF refl, of "[StartRecording False]" "''network''"
      "\<lparr>resultIndex = 0, results = [SpeechResult True [ascii ''hi'']]\<rparr>" "[]" "ascii ''hi''"
      StopRecording False 0]
    flags_follow_events [OF refl, of "[StartRecording False, OnStart]" "''network''"
      "\<lparr>resultIndex = 0, results = [SpeechResult True [ascii ''hi'']]\<rparr>" "[]" "ascii ''hi''"
      StopRecording False 0] t n r
  show ?thesis by simp
qed

section \<open>C2: stopRecording after a final result\<close>

text \<open>
  The claim that a stop after a final result keeps \<^verbatim>\<open>onTranscriptReady\<close> from being called
  fails on the code. In the session below the final result "hi" arrives and
  \<^verbatim>\<open>stopRecording()\<close> is called while the page's timeout is still armed: the callback has
  been invoked already, by the result event, and the timeout that fires after the stop
  still calls \<^verbatim>\<open>sendMessage()\<close>.
\<close>

theorem stop_after_final_result:
  "readyCalls (chat (run [StartRecording False, OnStart,
      OnResult \<lparr>resultIndex = 0, results = [SpeechResult True [ascii ''hi'']]\<rparr>,
      StopRecording] (mountApp True))) = [(ascii ''hi'', Some En)] \<and>
   timers (chat (run [StartRecording False, OnStart,
      OnResult \<lparr>resultIndex = 0, results = [SpeechResult True [ascii ''hi'']]\<rparr>,
      StopRecording] (mountApp True))) = [(1, ascii ''hi'')] \<and>
   sendCalls (chat (run [StartRecording False, OnStart,
      OnResult \<lparr>resultIndex = 0, results = [SpeechResult True [ascii ''hi'']]\<rparr>,
      StopRecording, TimerFire 1] (mountApp True))) = 1"
  by (simp add: eval_simps)

text \<open>
  C2, as the code has it. In every reachable state of a supporting host: the hook's own
  \<^verbatim>\<open>timeoutRef\<close> is not set (the hook has no delay of its own); a result event with a
  non-empty final transcript \<open>f\<close> invokes \<^verbatim>\<open>onTranscriptReady(f, detectLanguage(f))\<close> at
  once; and \<^verbatim>\<open>stopRecording()\<close> only calls \<^verbatim>\<open>stop()\<close> on the recognition object: it
  changes nothing else in the hook and nothing in the page, so it neither invokes the
  callback nor cancels the page's armed timeout.
\<close>

theorem stop_only_stops_the_handle:
  assumes "a = run es (mountApp True)"
  shows "timeoutRef (hook a) = None \<and>
    chat (step StopRecording a) = chat a \<and>
    (\<exists>r. recognitionRef (hook a) = Some r \<and>
         hook (step StopRecording a) = (hook a)\<lparr>recognitionRef := Some (stop r)\<rparr>) \<and>
    (transcripts ev = Inr (i, f) \<and> f \<noteq> [] \<longrightarrow>
       readyCalls (chat (step (OnResult ev) a)) = readyCalls (chat a) @ [(f, Some (detectLanguage f))])"
proof -
  from reachable_handle(1) [OF assms] obtain r where r: "recognitionRef (hook a) = Some r"
    by blast
  have 1: "timeoutRef (hook a) = None"
    by (rule reachable_handle(4) [OF assms])
  have 2: "chat (step StopRecording a) = chat a"
    by (simp add: step_def)
  have 3: "\<exists>r. recognitionRef (hook a) = Some r \<and>
         hook (step StopRecording a) = (hook a)\<lparr>recognitionRef := Some (stop r)\<rparr>"
    using r by (simp add: step_def stopRecording_def)
  have 4: "transcripts ev = Inr (i, f) \<and> f \<noteq> [] \<longrightarrow>
       readyCalls (chat (step (OnResult ev) a)) = readyCalls (chat a) @ [(f, Some (detectLanguage f))]"
    using r callback_readyCalls [OF reachable_handle(5) [OF assms], of En f "Some (detectLanguage f)"]
    by (simp add: step_def onresult_cases afterRender_def)
  from 1 2 3 4 show ?thesis by (intro conjI)
qed

text \<open>
  The theorem in the session of the counterexample: the final result "hi" appends the
  invocation, and the stop that follows leaves the page, with its armed timeout, as it is.
\<close>

theorem stop_only_stops_the_handle_witness:
  "transcripts \<lparr>resultIndex = 0, results = [SpeechResult True [ascii ''hi'']]\<rparr> = Inr ([], ascii ''hi'') \<and>
   ascii ''hi'' \<noteq> [] \<and>
   readyCalls (chat (step (OnResult \<lparr>resultIndex = 0, results = [SpeechResult True [ascii ''hi'']]\<rparr>)
      (run [StartRecording False, OnStart] (mountApp True)))) =
     readyCalls (chat (run [StartRecording False, OnStart] (mountApp True))) @
       [(ascii ''hi'', Some (detectLanguage (ascii ''hi'')))] \<and>
   chat (step StopRecording (run [StartRecording False, OnStart,
      OnResult \<lparr>resultIndex = 0, results = [SpeechResult True [ascii ''hi'']]\<rparr>] (mountApp True))) =
     chat (run [StartRecording False, OnStart,
      OnResult \<lparr>resultIndex = 0, results = [SpeechResult True [ascii ''hi'']]\<rparr>] (mountApp True))"
proof -
  have t: "transcripts \<lparr>resultIndex = 0, results = [SpeechResult True [ascii ''hi'']]\<rparr> = Inr ([], ascii ''hi'')"
    by (simp add: transcripts_def)
  have n: "ascii ''hi'' \<noteq> []" by (simp add: ascii_def)
  from stop_only_stops_the_handle [OF refl, of "[StartRecording False, OnStart]"
      "\<lparr>resultIndex = 0, results = [SpeechResult True [ascii ''hi'']]\<rparr>" "[]" "ascii ''hi''"] t n
  have a: "readyCalls (chat (step (OnResult \<lparr>resultIndex = 0, results = [SpeechResult True [ascii ''hi'']]\<rparr>)
      (run [StartRecording False, OnStart] (mountApp True)))) =
     readyCalls (chat (run [StartRecording False, OnStart] (mountApp True))) @
       [(ascii ''hi'', Some (detectLanguage (ascii ''hi'')))]"
    by simp
  from stop_only_stops_the_handle [OF refl, of "[StartRecording False, OnStart,
      OnResult \<lparr>resultIndex = 0, results = [SpeechResult True [ascii ''hi'']]\<rparr>]"]
  have b: "chat (step StopRecording (run [StartRecording False, OnStart,
      OnResult \<lparr>resultIndex = 0, results = [SpeechResult True [ascii ''hi'']]\<rparr>] (mountApp True))) =
     chat (run [StartRecording False, OnStart,
      OnResult \<lparr>resultIndex = 0, results = [SpeechResult True [ascii ''hi'']]\<rparr>] (mountApp True))"
    by simp
  from t n a b show ?thesis by (intro conjI)
qed

section \<open>C3: the language classifier\<close>

text \<open>
  A code unit in the range is a code point in the range and the other way round: the
  range lies in the Basic Multilingual Plane and holds no surrogate.
\<close>

lemma containsUrdu_codePoints:
  "containsUrdu s = (\<exists>c\<in>set (codePoints s). 0x0600 \<le> c \<and> c \<le> 0x06FF)"
proof (induction s rule: codePoints.induct)
  case 1
  show ?case by (simp add: containsUrdu_def)
next
  case (2 u)
  show ?case by (simp add: containsUrdu_def word_le_nat_alt)
next
  case (3 h l rest)
  show ?case
  proof (cases "isHighSurrogate h \<and> isLowSurrogate l")
    case True
    then have "\<not> (0x0600 \<le> h \<and> h \<le> 0x06FF)" and "\<not> (0x0600 \<le> l \<and> l \<le> 0x06FF)"
      by (auto simp: isHighSurrogate_def isLowSurrogate_def word_le_nat_alt)
    with True 3 show ?thesis by (auto simp: containsUrdu_def)
  next
    case False
    with 3 show ?thesis by (auto simp: containsUrdu_def word_le_nat_alt)
  qed
qed

text \<open>
  C3. For every string, \<^verbatim>\<open>detectLanguage\<close> returns \<^verbatim>\<open>'ur'\<close> if and only if the string
  contains at least one code point from U+0600 to U+06FF, and \<^verbatim>\<open>'en'\<close> otherwise; the
  empty string is classified \<^verbatim>\<open>'en'\<close>.
\<close>

theorem detectLanguage_iff_codepoint:
  "(detectLanguage s = Ur \<longleftrightarrow> (\<exists>c\<in>set (codePoints s). 0x0600 \<le> c \<and> c \<le> 0x06FF)) \<and>
   (detectLanguage s = En \<longleftrightarrow> \<not> (\<exists>c\<in>set (codePoints s). 0x0600 \<le> c \<and> c \<le> 0x06FF)) \<and>
   detectLanguage [] = En"
  using containsUrdu_codePoints [of s]
  by (simp add: detectLanguage_def containsUrdu_def)

text \<open>
  The theorem at two strings: one with two Urdu letters, a space and a Latin letter, and
  the English command "show my tasks".
\<close>

theorem detectLanguage_iff_codepoint_witness:
  "detectLanguage [0x0645, 0x06CC, 0x0020, 0x0061] = Ur \<and>
   (\<exists>c\<in>set (codePoints [0x0645, 0x06CC, 0x0020, 0x0061]). 0x0600 \<le> c \<and> c \<le> 0x06FF) \<and>
   detectLanguage (ascii ''show my tasks'') = En \<and>
   \<not> (\<exists>c\<in>set (codePoints (ascii ''show my tasks'')). 0x0600 \<le> c \<and> c \<le> 0x06FF)"
proof -
  have a: "detectLanguage [0x0645, 0x06CC, 0x0020, 0x0061] = Ur"
    by (simp add: detectLanguage_def containsUrdu_def)
  have b: "detectLanguage (ascii ''show my tasks'') = En"
    by (simp add: detectLanguage_def containsUrdu_def ascii_def)
  from a b detectLanguage_iff_codepoint [of "[0x0645, 0x06CC, 0x0020, 0x0061]"]
    detectLanguage_iff_codepoint [of "ascii ''show my tasks''"]
  show ?thesis by blast
qed

section \<open>C4: one armed timer, and how often the callback runs\<close>

text \<open>
  The claim that \<^verbatim>\<open>onTranscriptReady\<close> is invoked at most once in a session, and the
  dispatch fires at most once, fails on the code: nothing in \<^verbatim>\<open>onresult\<close> remembers that a
  final result has been handled. Two final results in one session invoke the callback twice;
  when the first timeout fires before the second final result arrives, \<^verbatim>\<open>sendMessage()\<close>
  is called twice.
\<close>

theorem two_final_results_in_one_session:
  "length (readyCalls (chat (run [StartRecording False, OnStart,
      OnResult \<lparr>resultIndex = 0, results = [SpeechResult True [ascii ''a'']]\<rparr>,
      OnResult \<lparr>resultIndex = 0, results = [SpeechResult True [ascii ''b'']]\<rparr>]
      (mountApp True)))) = 2 \<and>
   sendCalls (chat (run [StartRecording False, OnStart,
      OnResult \<lparr>resultIndex = 0, results = [SpeechResult True [ascii ''a'']]\<rparr>,
      TimerFire 1,
      OnResult \<lparr>resultIndex = 0, results = [SpeechResult True [ascii ''b'']]\<rparr>,
      TimerFire 2] (mountApp True))) = 2"
  by (simp add: eval_simps)

text \<open>
  C4, as the code has it. In every reachable state at most one dispatch timeout is armed,
  and it is the one the page's \<^verbatim>\<open>timeoutRef\<close> names: \<^verbatim>\<open>handleVoiceTranscript\<close> cancels
  the armed timeout before it arms the new one, so that afterwards exactly the new one is
  armed. The callback \<^verbatim>\<open>onTranscriptReady\<close> has been invoked once for every result event
  with a non-empty final transcript (never on a host without the API), and the calls of
  \<^verbatim>\<open>sendMessage()\<close> by timeouts together with the armed timeout never exceed the
  invocations of the callback.
\<close>

theorem one_armed_timer:
  assumes "a = run es (mountApp supported)"
  shows "length (timers (chat a)) \<le> 1 \<and>
    (\<forall>x\<in>set (timers (chat a)). pageTimeoutRef (chat a) = Some (fst x)) \<and>
    (\<forall>t. timers (handleVoiceTranscript t (chat a)) = [(nextTimer (chat a), t)]) \<and>
    length (readyCalls (chat a)) = (if supported then length (filter finalEvent es) else 0) \<and>
    sendCalls (chat a) + length (timers (chat a)) \<le> length (readyCalls (chat a))"
proof -
  have inv: "page_inv (chat a)"
    using reachable_inv [of supported es] assms by (simp add: app_inv_def)
  have 1: "length (timers (chat a)) \<le> 1"
    using inv by (simp add: page_inv_def)
  have 2: "\<forall>x\<in>set (timers (chat a)). pageTimeoutRef (chat a) = Some (fst x)"
    using inv by (simp add: page_inv_def)
  have 3: "\<forall>t. timers (handleVoiceTranscript t (chat a)) = [(nextTimer (chat a), t)]"
    using handleVoiceTranscript_timers [OF inv] by simp
  have 4: "length (readyCalls (chat a)) = (if supported then length (filter finalEvent es) else 0)"
    unfolding assms by (rule run_readyCalls)
  have 5: "sendCalls (chat a) + length (timers (chat a)) \<le> length (readyCalls (chat a))"
    using inv by (simp add: page_inv_def)
  from 1 2 3 4 5 show ?thesis by (intro conjI)
qed

text \<open>
  The theorem in a session with two final results and no timeout fired in between: the one
  armed timeout is the second, the page's ref names it, and the invocations are as many as
  the final results.
\<close>

theorem one_armed_timer_witness:
  "timers (chat (run [StartRecording False, OnStart,
      OnResult \<lparr>resultIndex = 0, results = [SpeechResult True [ascii ''a'']]\<rparr>,
      OnResult \<lparr>resultIndex = 0, results = [SpeechResult True [ascii ''b'']]\<rparr>]
      (mountApp True))) = [(2, ascii ''b'')] \<and>
   pageTimeoutRef (chat (run [StartRecording False, OnStart,
      OnResult \<lparr>resultIndex = 0, results = [SpeechResult True [ascii ''a'']]\<rparr>,
      OnResult \<lparr>resultIndex = 0, results = [SpeechResult True [ascii ''b'']]\<rparr>]
      (mountApp True))) = Some 2 \<and>
   length (readyCalls (chat (run [StartRecording False, OnStart,
      OnResult \<lparr>resultIndex = 0, results = [SpeechResult True [ascii ''a'']]\<rparr>,
      OnResult \<lparr>resultIndex = 0, results = [SpeechResult True [ascii ''b'']]\<rparr>]
      (mountApp True)))) =
     length (filter finalEvent [StartRecording False, OnStart,
      OnResult \<lparr>resultIndex = 0, results = [SpeechResult True [ascii ''a'']]\<rparr>,
      OnResult \<lparr>resultIndex = 0, results = [SpeechResult True [ascii ''b'']]\<rparr>]) \<and>
   sendCalls (chat (run [StartRecording False, OnStart,
      OnResult \<lparr>resultIndex = 0, results = [SpeechResult True [ascii ''a'']]\<rparr>,
      OnResult \<lparr>resultIndex = 0, results = [SpeechResult True [ascii ''b'']]\<rparr>]
      (mountApp True))) + 1 \<le>
   length (readyCalls (chat (run [StartRecording False, OnStart,
      OnResult \<lparr>resultIndex = 0, results = [SpeechResult True [ascii ''a'']]\<rparr>,
      OnResult \<lparr>resultIndex = 0, results = [SpeechResult True [ascii ''b'']]\<rparr>]
      (mountApp True))))"
proof -
  let ?a = "run [StartRecording False, OnStart,
      OnResult \<lparr>resultIndex = 0, results = [SpeechResult True [ascii ''a'']]\<rparr>,
      OnResult \<lparr>resultIndex = 0, results = [SpeechResult True [ascii ''b'']]\<rparr>]
      (mountApp True)"
  have t: "timers (chat ?a) = [(2, ascii ''b'')]"
    by (simp add: eval_simps)
  note th = one_armed_timer [OF refl, of "[StartRecording False, OnStart,
      OnResult \<lparr>resultIndex = 0, results = [SpeechResult True [ascii ''a'']]\<rparr>,
      OnResult \<lparr>resultIndex = 0, results = [SpeechResult True [ascii ''b'']]\<rparr>]" True]
  have b: "\<forall>x\<in>set (timers (chat ?a)). pageTimeoutRef (chat ?a) = Some (fst x)"
    using th by (elim conjE)
  have c: "length (readyCalls (chat ?a)) =
      (if True then length (filter finalEvent [StartRecording False, OnStart,
      OnResult \<lparr>resultIndex = 0, results = [SpeechResult True [ascii ''a'']]\<rparr>,
      OnResult \<lparr>resultIndex = 0, results = [SpeechResult True [ascii ''b'']]\<rparr>]) else 0)"
    using th by (elim conjE)
  have d: "sendCalls (chat ?a) + length (timers (chat ?a)) \<le> length (readyCalls (chat ?a))"
    using th by (elim conjE)
  from b have r: "pageTimeoutRef (chat ?a) = Some 2"
    unfolding t by simp
  from d have d': "sendCalls (chat ?a) + 1 \<le> length (readyCalls (chat ?a))"
    unfolding t by simp
  from c have c': "length (readyCalls (chat ?a)) =
      length (filter finalEvent [StartRecording False, OnStart,
      OnResult \<lparr>resultIndex = 0, results = [SpeechResult True [ascii ''a'']]\<rparr>,
      OnResult \<lparr>resultIndex = 0, results = [SpeechResult True [ascii ''b'']]\<rparr>])"
    by (simp only: if_True)
  from t r c' d' show ?thesis by (intro conjI)
qed

section \<open>C5: a host without the speech API\<close>

text \<open>
  C5. On a host without the capability (\<^verbatim>\<open>isSupported\<close> is false), in every reachable
  state no recognition object exists and none has been constructed (so none can have been
  started), and \<^verbatim>\<open>startRecording()\<close> sets the error to the message
  \<^verbatim>\<open>getVoiceErrorMessage('not-supported', language)\<close>, which is not empty, and changes
  nothing else, whatever the host would do on \<^verbatim>\<open>start()\<close>.
\<close>

theorem unsupported_start_reports:
  assumes "a = run es (mountApp False)"
  shows "recognitionRef (hook a) = None \<and> constructed (hook a) = 0 \<and>
    (\<exists>m. getVoiceErrorMessage ''not-supported'' (pageLanguage (chat a)) = Inr m \<and> m \<noteq> [] \<and>
       step (StartRecording throws) a = a\<lparr>hook := (hook a)\<lparr>error := Some m\<rparr>\<rparr>)"
proof -
  from reachable_inv [of False es] assms
  have sup: "\<not> isSupported a" and none: "recognitionRef (hook a) = None"
    and zero: "constructed (hook a) = 0"
    by (simp_all add: app_inv_def hook_inv_def)
  from getVoiceErrorMessage_not_empty [of "''not-supported''" "pageLanguage (chat a)"]
  obtain m where m: "getVoiceErrorMessage ''not-supported'' (pageLanguage (chat a)) = Inr m"
    and ne: "m \<noteq> []"
    by blast
  from sup m have "step (StartRecording throws) a = a\<lparr>hook := (hook a)\<lparr>error := Some m\<rparr>\<rparr>"
    by (simp add: step_def startRecording_def)
  with m ne none zero show ?thesis by blast
qed

text \<open>
  The theorem after the user has switched the page to Urdu, on a host without the API.
\<close>

theorem unsupported_start_reports_witness:
  "pageLanguage (chat (run [ToggleLanguage] (mountApp False))) = Ur \<and>
   recognitionRef (hook (run [ToggleLanguage] (mountApp False))) = None \<and>
   constructed (hook (run [ToggleLanguage] (mountApp False))) = 0 \<and>
   (\<exists>m. getVoiceErrorMessage ''not-supported'' Ur = Inr m \<and> m \<noteq> [] \<and>
      error (hook (step (StartRecording False) (run [ToggleLanguage] (mountApp False)))) = Some m)"
proof -
  have l: "pageLanguage (chat (run [ToggleLanguage] (mountApp False))) = Ur"
    by (simp add: eval_simps)
  from unsupported_start_reports [OF refl, of "[ToggleLanguage]" False]
  show ?thesis unfolding l by auto
qed

section \<open>C6: what a successful start clears\<close>

text \<open>
  C6 on the code. Neither \<^verbatim>\<open>startRecording\<close> nor \<^verbatim>\<open>onstart\<close> touches the transcript:
  \<^verbatim>\<open>onstart\<close> clears the error and keeps the transcript. In the run below a first session
  leaves the interim text "show"; after the second \<^verbatim>\<open>startRecording()\<close> and its
  session-started event the transcript is still "show" (the error is null).
\<close>

theorem onstart_keeps_transcript:
  "transcript (onstart v) = transcript v \<and> error (onstart v) = None \<and>
   transcript (startRecording supported cfg throws v) = transcript v \<and>
   transcript (hook (run [StartRecording False, OnStart,
      OnResult \<lparr>resultIndex = 0, results = [SpeechResult False [ascii ''show'']]\<rparr>,
      OnEnd, StartRecording False, OnStart] (mountApp True))) = ascii ''show'' \<and>
   error (hook (run [StartRecording False, OnStart,
      OnResult \<lparr>resultIndex = 0, results = [SpeechResult False [ascii ''show'']]\<rparr>,
      OnEnd, StartRecording False, OnStart] (mountApp True))) = None"
proof -
  have 1: "transcript (onstart v) = transcript v \<and> error (onstart v) = None"
    by (simp add: onstart_def)
  have 2: "transcript (startRecording supported cfg throws v) = transcript v"
    by (simp add: startRecording_def start_def Let_def split: sum.splits option.splits)
  have 3: "transcript (hook (run [StartRecording False, OnStart,
      OnResult \<lparr>resultIndex = 0, results = [SpeechResult False [ascii ''show'']]\<rparr>,
      OnEnd, StartRecording False, OnStart] (mountApp True))) = ascii ''show'' \<and>
   error (hook (run [StartRecording False, OnStart,
      OnResult \<lparr>resultIndex = 0, results = [SpeechResult False [ascii ''show'']]\<rparr>,
      OnEnd, StartRecording False, OnStart] (mountApp True))) = None"
    by (simp add: eval_simps)
  from 1 2 3 show ?thesis by simp
qed

section \<open>C7: startRecording while a session is active\<close>




section \<open>C8: changing the display language during a session\<close>

text \<open>
  The claim that a language change leaves the open handle alone fails on the code: the
  effect on \<^verbatim>\<open>config.language\<close> assigns \<^verbatim>\<open>recognitionRef.current.lang\<close> whenever the
  language changes. Below, a session is recording with the tag \<^verbatim>\<open>en-US\<close>; the user
  switches the page to Urdu and the same object, still recording, carries \<^verbatim>\<open>ur-PK\<close>.
\<close>

theorem language_change_retags_open_handle:
  "isRecording (hook (run [StartRecording False, OnStart] (mountApp True))) \<and>
   map_option lang (recognitionRef (hook (run [StartRecording False, OnStart] (mountApp True)))) =
     Some ''en-US'' \<and>
   isRecording (hook (run [StartRecording False, OnStart, ToggleLanguage] (mountApp True))) \<and>
   map_option lang (recognitionRef (hook (run [StartRecording False, OnStart, ToggleLanguage]
     (mountApp True)))) = Some ''ur-PK''"
  by (simp add: eval_simps)

text \<open>
  C8, as the code has it. In every reachable state of a supporting host, during a session
  or not, the language tag of the hook's one recognition object is the code of the page's
  current display language; a change of the display language rewrites the tag of that
  object at once and changes nothing else in the hook's state.
\<close>

theorem handle_tag_follows_language:
  assumes "a = run es (mountApp True)"
  shows "\<exists>r. recognitionRef (hook a) = Some r \<and>
    lang r = getLanguageCode (pageLanguage (chat a)) \<and>
    pageLanguage (chat (step ToggleLanguage a)) = (if pageLanguage (chat a) = En then Ur else En) \<and>
    hook (step ToggleLanguage a) =
      (hook a)\<lparr>recognitionRef :=
         Some (r\<lparr>lang := getLanguageCode (if pageLanguage (chat a) = En then Ur else En)\<rparr>)\<rparr>"
proof -
  from reachable_handle [OF assms] obtain r where r: "recognitionRef (hook a) = Some r"
    and l: "lang r = getLanguageCode (pageLanguage (chat a))" and sup: "isSupported a"
    by blast
  from r sup have "pageLanguage (chat (step ToggleLanguage a)) = (if pageLanguage (chat a) = En then Ur else En) \<and>
    hook (step ToggleLanguage a) =
      (hook a)\<lparr>recognitionRef :=
         Some (r\<lparr>lang := getLanguageCode (if pageLanguage (chat a) = En then Ur else En)\<rparr>)\<rparr>"
    by (simp add: step_def afterRender_def toggleLanguage_def languageEffect_def)
  with r l show ?thesis by blast
qed

text \<open>
  The theorem in the recording session of the counterexample.
\<close>

theorem handle_tag_follows_language_witness:
  "\<exists>r. recognitionRef (hook (run [StartRecording False, OnStart] (mountApp True))) = Some r \<and>
     lang r = ''en-US'' \<and>
     hook (step ToggleLanguage (run [StartRecording False, OnStart] (mountApp True))) =
       (hook (run [StartRecording False, OnStart] (mountApp True)))\<lparr>recognitionRef :=
          Some (r\<lparr>lang := ''ur-PK''\<rparr>)\<rparr>"
proof -
  have l: "pageLanguage (chat (run [StartRecording False, OnStart] (mountApp True))) = En"
    by (simp add: eval_simps)
  from handle_tag_follows_language [OF refl, of "[StartRecording False, OnStart]"]
  show ?thesis unfolding l by (auto simp: getLanguageCode_def)
qed

section \<open>C9: the localized error messages\<close>

lemma map_of_network:
  "map_of ERROR_MESSAGES ''network'' =
     Some \<lparr>en = ascii ''Network error. Please check your connection.'',
        ur = [0x0646, 0x06CC, 0x0679, 0x0020, 0x0648, 0x0631, 0x06A9, 0x0020, 0x062E, 0x0631,
              0x0627, 0x0628, 0x06CC, 0x06D4, 0x0020, 0x0627, 0x067E, 0x0646, 0x0627, 0x0020,
              0x06A9, 0x0646, 0x06A9, 0x0634, 0x0646, 0x0020, 0x0686, 0x06CC, 0x06A9, 0x0020,
              0x06A9, 0x0631, 0x06CC, 0x06BA, 0x06D4]\<rparr>"
  by (simp add: ERROR_MESSAGES_def)

lemma ERROR_MESSAGES_keys:
  "map_of ERROR_MESSAGES c = None \<longleftrightarrow>
     c \<notin> {''not-allowed'', ''no-speech'', ''audio-capture'', ''network''}"
  by (simp add: ERROR_MESSAGES_def)

text \<open>
  Every message of the object is non-empty, and the hook's own classifier reads its English
  column as English and its Urdu column as Urdu.
\<close>

lemma ERROR_MESSAGES_entries:
  "map_of ERROR_MESSAGES c = Some e \<Longrightarrow> entryAt e l \<noteq> [] \<and> detectLanguage (entryAt e l) = l"
  by (cases l)
    (auto simp: ERROR_MESSAGES_def entryAt_def detectLanguage_def containsUrdu_def ascii_def
      split: if_splits)

text \<open>
  C9. For every error code \<open>c\<close>, the six of the closed set and any other string, and for
  either display language \<open>l\<close>, \<^verbatim>\<open>getVoiceErrorMessage(c, l)\<close> does not throw and returns a
  non-empty message in the language \<open>l\<close>; for a code outside the closed set the message is
  the fallback of the function, which is the message it gives for \<^verbatim>\<open>'network'\<close>.
\<close>

theorem getVoiceErrorMessage_total:
  "\<exists>m. getVoiceErrorMessage c l = Inr m \<and> m \<noteq> [] \<and> detectLanguage m = l \<and>
     (c \<notin> {''not-allowed'', ''no-speech'', ''audio-capture'', ''network'', ''aborted'', ''not-supported''}
        \<longrightarrow> getVoiceErrorMessage c l = getVoiceErrorMessage ''network'' l)"
proof (cases "map_of ERROR_MESSAGES c")
  case None
  then show ?thesis
    using ERROR_MESSAGES_entries [OF map_of_network, of l]
    by (simp add: getVoiceErrorMessage_def map_of_network)
next
  case (Some e)
  with ERROR_MESSAGES_entries [OF Some, of l] ERROR_MESSAGES_keys [of c] show ?thesis
    by (auto simp add: getVoiceErrorMessage_def)
qed

text \<open>
  The theorem at the code \<^verbatim>\<open>'bad-grammar'\<close>, which is outside the closed set, in Urdu,
  and at \<^verbatim>\<open>'no-speech'\<close> in English.
\<close>

theorem getVoiceErrorMessage_total_witness:
  "''bad-grammar'' \<notin> {''not-allowed'', ''no-speech'', ''audio-capture'', ''network'', ''aborted'',
      ''not-supported''} \<and>
   getVoiceErrorMessage ''bad-grammar'' Ur = getVoiceErrorMessage ''network'' Ur \<and>
   (\<exists>m. getVoiceErrorMessage ''bad-grammar'' Ur = Inr m \<and> m \<noteq> [] \<and> detectLanguage m = Ur) \<and>
   getVoiceErrorMessage ''no-speech'' En = Inr (ascii ''No speech detected. Please try again.'')"
proof -
  have out: "''bad-grammar'' \<notin> {''not-allowed'', ''no-speech'', ''audio-capture'', ''network'',
      ''aborted'', ''not-supported''}"
    by simp
  have ns: "getVoiceErrorMessage ''no-speech'' En = Inr (ascii ''No speech detected. Please try again.'')"
    by (simp add: getVoiceErrorMessage_def ERROR_MESSAGES_def entryAt_def ascii_def)
  have "\<exists>m. getVoiceErrorMessage ''bad-grammar'' Ur = Inr m \<and> m \<noteq> [] \<and> detectLanguage m = Ur \<and>
     (''bad-grammar'' \<notin> {''not-allowed'', ''no-speech'', ''audio-capture'', ''network'',
        ''aborted'', ''not-supported''}
        \<longrightarrow> getVoiceErrorMessage ''bad-grammar'' Ur = getVoiceErrorMessage ''network'' Ur)"
    by (rule getVoiceErrorMessage_total)
  then obtain m where m: "getVoiceErrorMessage ''bad-grammar'' Ur = Inr m" "m \<noteq> []"
      "detectLanguage m = Ur"
    and fb: "''bad-grammar'' \<notin> {''not-allowed'', ''no-speech'', ''audio-capture'', ''network'',
        ''aborted'', ''not-supported''}
        \<longrightarrow> getVoiceErrorMessage ''bad-grammar'' Ur = getVoiceErrorMessage ''network'' Ur"
    by (elim exE conjE)
  from fb out have eq: "getVoiceErrorMessage ''bad-grammar'' Ur = getVoiceErrorMessage ''network'' Ur"
    by (rule mp)
  from m have ex: "\<exists>m. getVoiceErrorMessage ''bad-grammar'' Ur = Inr m \<and> m \<noteq> [] \<and> detectLanguage m = Ur"
    by (intro exI conjI)
  from out eq ex ns show ?thesis by (intro conjI)
qed

section \<open>C10: a result event without final text\<close>

text \<open>
  C10. For every result event whose concatenated final transcript is the empty string,
  \<^verbatim>\<open>onresult\<close> sets the displayed transcript to the interim text and \<^verbatim>\<open>isTranscribing\<close>
  to true, and leaves the caller's world untouched whatever the callback is: it does not
  invoke \<^verbatim>\<open>onTranscriptReady\<close>. For the mounted page the step changes these two cells of
  the hook and nothing else, so the list of invocations stays as it is.
\<close>

theorem empty_final_transcript:
  assumes "transcripts ev = Inr (interimTranscript, [])"
  shows "onresult cfg ev (v, w) = Inr (v\<lparr>transcript := interimTranscript, isTranscribing := True\<rparr>, w) \<and>
    (recognitionRef (hook a) \<noteq> None \<longrightarrow>
       step (OnResult ev) a =
         a\<lparr>hook := (hook a)\<lparr>transcript := interimTranscript, isTranscribing := True\<rparr>\<rparr>)"
  using assms by (simp add: onresult_cases step_def afterRender_def)

text \<open>
  The theorem at an event whose results, from \<^verbatim>\<open>resultIndex = 1\<close> on, are the interim
  text "show" and a final result that carries no text, in a session that has started.
\<close>

theorem empty_final_transcript_witness:
  "transcripts \<lparr>resultIndex = 1, results = [SpeechResult True [ascii ''old''],
      SpeechResult False [ascii ''show''], SpeechResult True [[]]]\<rparr> = Inr (ascii ''show'', []) \<and>
   recognitionRef (hook (run [StartRecording False, OnStart] (mountApp True))) \<noteq> None \<and>
   isTranscribing (hook (step (OnResult \<lparr>resultIndex = 1, results = [SpeechResult True [ascii ''old''],
      SpeechResult False [ascii ''show''], SpeechResult True [[]]]\<rparr>)
      (run [StartRecording False, OnStart] (mountApp True)))) \<and>
   transcript (hook (step (OnResult \<lparr>resultIndex = 1, results = [SpeechResult True [ascii ''old''],
      SpeechResult False [ascii ''show''], SpeechResult True [[]]]\<rparr>)
      (run [StartRecording False, OnStart] (mountApp True)))) = ascii ''show'' \<and>
   readyCalls (chat (step (OnResult \<lparr>resultIndex = 1, results = [SpeechResult True [ascii ''old''],
      SpeechResult False [ascii ''show''], SpeechResult True [[]]]\<rparr>)
      (run [StartRecording False, OnStart] (mountApp True)))) = []"
proof -
  have t: "transcripts \<lparr>resultIndex = 1, results = [SpeechResult True [ascii ''old''],
      SpeechResult False [ascii ''show''], SpeechResult True [[]]]\<rparr> = Inr (ascii ''show'', [])"
    by (simp add: transcripts_def)
  have h: "recognitionRef (hook (run [StartRecording False, OnStart] (mountApp True))) \<noteq> None"
    by (simp add: eval_simps)
  have c: "readyCalls (chat (run [StartRecording False, OnStart] (mountApp True))) = []"
    by (simp add: eval_simps)
  from empty_final_transcript [OF t, where a = "run [StartRecording False, OnStart] (mountApp True)"
      and cfg = "chatConfig En" and v = "hook (mountApp True)" and w = "chat (mountApp True)"] h
  have s: "step (OnResult \<lparr>resultIndex = 1, results = [SpeechResult True [ascii ''old''],
      SpeechResult False [ascii ''show''], SpeechResult True [[]]]\<rparr>)
      (run [StartRecording False, OnStart] (mountApp True)) =
    (run [StartRecording False, OnStart] (mountApp True))\<lparr>hook :=
       (hook (run [StartRecording False, OnStart] (mountApp True)))\<lparr>transcript := ascii ''show'',
          isTranscribing := True\<rparr>\<rparr>"
    by simp
  from t h c s show ?thesis by simp
qed

end
